theory Spec2Isabelle
  imports Main "HOL-Library.AList"
begin

section \<open>Data model of \<open>scanservice/handling.go\<close>\<close>

text \<open>
  The types of the packages \<open>data\<close>, \<open>settings\<close> and \<open>plugins\<close> are declared outside
  \<open>handling.go\<close>; the records below carry exactly the fields that \<open>handling.go\<close> reads or
  writes. Go's \<open>int\<close> is modelled by \<open>int\<close>: the code only compares these values with
  \<open>0\<close>, it never does arithmetic on them. A Go \<open>string\<close> is a byte sequence, here
  \<open>string\<close>. The field \<open>Image\<close> is called \<open>Image_name\<close> because \<open>Image\<close> is the
  relational image of HOL.
\<close>

record Vulnerability =
  FixVersion :: string

record Resource =
  Vulnerabilities :: "Vulnerability list"

record ScanImageInfo =
  Registry :: string
  Image_name :: string
  Negligible :: int
  Low :: int
  Medium :: int
  High :: int
  Critical :: int
  Resources :: "Resource list"
  Disallowed :: bool
  ApplicationScopeOwners :: "string list"

record Settings =
  PluginName :: string
  PolicyShowAll :: bool
  PolicyMinVulnerability :: string
  IgnoreRegistry :: "string list"
  IgnoreImageName :: "string list"
  PolicyImageName :: "string list"
  PolicyRegistry :: "string list"
  PolicyNonCompliant :: bool
  PolicyOnlyFixAvailable :: bool
  PolicyOPA :: "string list"
  AggregateIssuesNumber :: int
  AggregateTimeoutSeconds :: int
  IsScheduleRun :: bool
  AquaServer :: string

text \<open>
  A \<open>plugins.Plugin\<close> is an interface value. \<open>GetSettings\<close> returns a pointer that may be
  \<open>nil\<close> (\<open>None\<close>); it is taken to be a getter of the plugin's own settings object, so
  that the write \<open>currentSettings.IsScheduleRun = true\<close> is seen by the next
  \<open>GetSettings\<close>. The layout provider is opaque (\<open>'p\<close>). \<open>Send\<close> is an effect and appears
  as an event below. A \<open>nil\<close> plugin in the map is \<open>None\<close>.
\<close>

record 'p Plugin =
  GetSettings :: "Settings option"
  GetLayoutProvider :: 'p

record ScanService =
  scanInfo :: "ScanImageInfo option"
  prevScan :: "ScanImageInfo option"
  isNew :: bool

text \<open>
  A \<open>map[string]string\<close> is an association list with distinct keys, written with
  \<open>AList.update\<close>; its \<open>len\<close> is the length of the list. Where the code distinguishes a
  \<open>nil\<close> map (\<open>content = nil\<close>, the \<open>nil\<close> argument of the scheduler) the value is a
  \<open>content option\<close> and \<open>nil\<close> is \<open>None\<close>. A slice \<open>[]map[string]string\<close> is a list;
  \<open>nil\<close> and the empty slice both have length \<open>0\<close> and are \<open>[]\<close>.
\<close>

type_synonym content = "(string \<times> string) list"

fun len_map :: "content option \<Rightarrow> nat" where
  "len_map None = 0"
| "len_map (Some m) = length m"

text \<open>Go's \<open>error\<close> interface: \<open>None\<close> is \<open>nil\<close>, \<open>Some e\<close> an error with message \<open>e\<close>.\<close>

type_synonym error = "string option"

text \<open>The only run-time panic the file can raise by itself: a \<open>nil\<close> pointer dereference.\<close>

datatype fault = NilDereference

subsection \<open>Observable effects\<close>

text \<open>
  Each \<open>log.Printf\<close>/\<open>log.Println\<close> of the file is one constructor, with the values it
  formats, in source order.
\<close>

datatype log_msg =
    Init_error string string
  | Handling string string
  | Old_result string
  | Only_low_level string string string
  | Registry_ignored string string
  | Image_ignored string string
  | Image_not_allowed string string
  | Registry_not_allowed string string
  | Not_disallowed string string
  | No_fix_version string string
  | Uses_OPA string "string list"
  | Rego_error string string
  | Rego_no_match string string
  | Scheduler_active string string int
  | AggregateScans_error string
  | Added_to_queue string

text \<open>
  The effects of a call, in program order: a log line, a call of
  \<open>dbservice.AggregateScans\<close> with its four arguments, \<open>send(plugin, content)\<close> (which
  starts \<open>go plg.Send(cnt)\<close>; the plugin is named by its map key), the start of the
  scheduler goroutine for a key, and \<open>time.Sleep\<close> with its duration in nanoseconds.
\<close>

datatype event =
    Log log_msg
  | Accept string "content option" int bool
  | Dispatch string content
  | Go_scheduler string
  | Sleep int

fun is_dispatch :: "event \<Rightarrow> bool" where
  "is_dispatch (Dispatch n c) = True"
| "is_dispatch e = False"

fun is_accept :: "event \<Rightarrow> bool" where
  "is_accept (Accept n c k b) = True"
| "is_accept e = False"

subsection \<open>External collaborators\<close>

text \<open>
  Functions that \<open>handling.go\<close> calls and that live in other files or packages are
  parameters. \<open>'w\<close> is the state of \<open>dbservice\<close> (the scan database and the aggregation
  buckets); the two \<open>dbservice\<close> functions take and return it. A Go function returning
  \<open>(value, error)\<close> returns a pair: the value is assigned even when the error is not
  \<open>nil\<close>, as in the source.
\<close>

record ('w, 'p) Env =
  parseImageInfo :: "string \<Rightarrow> ScanImageInfo option \<times> error"
  HandleCurrentInfo :: "'w \<Rightarrow> ScanImageInfo option \<Rightarrow> 'w \<times> string \<times> bool \<times> error"
  AggregateScans :: "'w \<Rightarrow> string \<Rightarrow> content option \<Rightarrow> int \<Rightarrow> bool \<Rightarrow> 'w \<times> content list \<times> error"
  compliesPolicies :: "string list \<Rightarrow> string \<Rightarrow> bool"
  isRegoCorrect :: "string list \<Rightarrow> string \<Rightarrow> bool \<times> error"
  GenTicketDescription :: "'p \<Rightarrow> ScanImageInfo \<Rightarrow> ScanImageInfo option \<Rightarrow> string \<Rightarrow> string"
  buildAggregatedContent :: "content list \<Rightarrow> 'p \<Rightarrow> content"
  GetDefaultSettings :: Settings
  GetUniqueId :: "ScanImageInfo \<Rightarrow> string"

section \<open>String helpers of the Go library\<close>

text \<open>\<open>strings.Join(elems, sep)\<close>.\<close>

fun Join :: "string list \<Rightarrow> string \<Rightarrow> string" where
  "Join [] sep = []"
| "Join [x] sep = x"
| "Join (x # y # ys) sep = x @ sep @ Join (y # ys) sep"

text \<open>
  \<open>strings.ReplaceAll(s, old, new)\<close> for a one-byte \<open>old\<close>, which is how \<open>getContent\<close>
  calls it (\<open>old = "/"\<close>).
\<close>

fun ReplaceAll :: "string \<Rightarrow> char \<Rightarrow> string \<Rightarrow> string" where
  "ReplaceAll [] old new = []"
| "ReplaceAll (c # cs) old new = (if c = old then new else [c]) @ ReplaceAll cs old new"

text \<open>
  \<open>strings.ToLower\<close> on ASCII: the bytes \<open>A\<close>..\<open>Z\<close> (65..90) move to \<open>a\<close>..\<open>z\<close>, every
  other byte is kept. This is Go's function on strings whose bytes are all below 128.
  Go also folds letters outside ASCII (U+0130 becomes \<open>i\<close>), which this function does
  not: on a string with a byte above 127 the two may differ, and nothing below is
  stated for such a string.
\<close>

definition lower_byte :: "char \<Rightarrow> char" where
  "lower_byte c =
     (let n = (of_char c :: nat) in if 65 \<le> n \<and> n \<le> 90 then char_of (n + 32) else c)"

definition ToLower :: "string \<Rightarrow> string" where
  "ToLower s = map lower_byte s"

section \<open>Severity model\<close>

text \<open>
  Modelled from the spec: the package-level table \<open>SeverityIndexes\<close>
  (\<open>map[string]int\<close>) is declared outside \<open>handling.go\<close>. The spec fixes the rank order
  Negligible < Low < Medium < High < Critical, and \<open>checkVulnerabilitiesLevel\<close> indexes
  the array \<open>{Negligible, Low, Medium, High, Critical}\<close> with the table's value, so the
  table maps the lower-case level names to the positions 0..4.
\<close>

definition SeverityIndexes :: "(string \<times> nat) list" where
  "SeverityIndexes =
     [(''negligible'', 0), (''low'', 1), (''medium'', 2), (''high'', 3), (''critical'', 4)]"

text \<open>Reading a Go map at a missing key gives the zero value.\<close>

definition SeverityIndexes_at :: "string \<Rightarrow> nat" where
  "SeverityIndexes_at k = (case map_of SeverityIndexes k of None \<Rightarrow> 0 | Some i \<Rightarrow> i)"

text \<open>
  The loop \<open>for i := ...; i < len(vulns); i++\<close> of \<open>checkVulnerabilitiesLevel\<close>, with its
  early \<open>return true\<close>.
\<close>

function vulns_loop :: "int list \<Rightarrow> nat \<Rightarrow> bool" where
  "vulns_loop vulns i =
     (if i < length vulns then (if vulns ! i > 0 then True else vulns_loop vulns (Suc i))
      else False)"
  by pat_completeness auto
termination
  by (relation "measure (\<lambda>(vulns, i). length vulns - i)") auto

definition checkVulnerabilitiesLevel :: "ScanImageInfo \<Rightarrow> string \<Rightarrow> bool" where
  "checkVulnerabilitiesLevel info minLevel =
     (let vulns = [Negligible info, Low info, Medium info, High info, Critical info]
      in vulns_loop vulns (SeverityIndexes_at (ToLower minLevel)))"

text \<open>\<open>checkFixVersions\<close>: two nested \<open>range\<close> loops with an early \<open>return true\<close>.\<close>

fun fix_in_vulnerabilities :: "Vulnerability list \<Rightarrow> bool" where
  "fix_in_vulnerabilities [] = False"
| "fix_in_vulnerabilities (v # vs) =
     (if length (FixVersion v) > 0 then True else fix_in_vulnerabilities vs)"

fun fix_in_resources :: "Resource list \<Rightarrow> bool" where
  "fix_in_resources [] = False"
| "fix_in_resources (r # rs) =
     (if fix_in_vulnerabilities (Vulnerabilities r) then True else fix_in_resources rs)"

definition checkFixVersions :: "ScanImageInfo \<Rightarrow> bool" where
  "checkFixVersions info = fix_in_resources (Resources info)"

section \<open>Content builder\<close>

text \<open>
  Modelled from the spec: \<open>buildMapContent\<close> is defined outside \<open>handling.go\<close>. The spec
  describes the notification content as a mapping of the named fields title,
  description and url (plus src and owners, which \<open>ResultHandling\<close> adds itself).
\<close>

definition buildMapContent :: "string \<Rightarrow> string \<Rightarrow> string \<Rightarrow> content" where
  "buildMapContent title description url =
     [(''title'', title), (''description'', description), (''url'', url)]"

text \<open>
  \<open>getContent\<close>; \<open>info\<close> is \<open>*scan.scanInfo\<close> and \<open>prev\<close> is \<open>scan.prevScan\<close>.
  \<open>fmt.Sprintf("%s vulnerability scan report", x)\<close> is \<open>x\<close> followed by the rest.
\<close>

definition getContent ::
  "('w, 'p) Env \<Rightarrow> ScanImageInfo \<Rightarrow> ScanImageInfo option \<Rightarrow> 'p \<Rightarrow> string \<Rightarrow> content" where
  "getContent env info prev provider server =
     (let url = Registry info @ ''/'' @ ReplaceAll (Image_name info) (CHR ''/'') ''%2F''
      in buildMapContent
           (Image_name info @ '' vulnerability scan report'')
           (GenTicketDescription env provider info prev (server @ url))
           url)"

text \<open>Lines 27 to 30 of \<open>ResultHandling\<close>: the owners string.\<close>

definition owners_of :: "ScanImageInfo \<Rightarrow> string" where
  "owners_of info =
     (if length (ApplicationScopeOwners info) > 0
      then Join (ApplicationScopeOwners info) '';'' else [])"

text \<open>Lines 93 to 101: the content of one passing subscriber.\<close>

definition plugin_content ::
  "('w, 'p) Env \<Rightarrow> ScanService \<Rightarrow> ScanImageInfo \<Rightarrow> string \<Rightarrow> string \<Rightarrow> 'p Plugin \<Rightarrow> content" where
  "plugin_content env scan info input owners plugin =
     (let server = (case GetSettings plugin of None \<Rightarrow> [] | Some s \<Rightarrow> AquaServer s);
          content = getContent env info (prevScan scan) (GetLayoutProvider plugin) server;
          content = AList.update ''src'' input content
      in if owners \<noteq> [] then AList.update ''owners'' owners content else content)"

section \<open>\<open>init\<close>\<close>

definition init ::
  "('w, 'p) Env \<Rightarrow> 'w \<Rightarrow> ScanService \<Rightarrow> string \<Rightarrow> 'w \<times> ScanService \<times> error" where
  "init env w scan data =
     (case parseImageInfo env data of (info, err) \<Rightarrow>
        let scan = scan\<lparr>scanInfo := info\<rparr> in
        if err \<noteq> None then (w, scan, err)
        else
          (case HandleCurrentInfo env w (scanInfo scan) of (w, prevScanSource, new, err) \<Rightarrow>
             let scan = scan\<lparr>isNew := new\<rparr> in
             if err \<noteq> None then (w, scan, err)
             else if \<not> isNew scan then (w, scan, None)
             else if length prevScanSource > 0 then
               (case parseImageInfo env prevScanSource of (prev, err) \<Rightarrow>
                  (w, scan\<lparr>prevScan := prev\<rparr>, err))
             else (w, scan, None)))"

section \<open>Aggregation helper\<close>

definition AggregateScanAndGetQueue ::
  "('w, 'p) Env \<Rightarrow> 'w \<Rightarrow> string \<Rightarrow> content option \<Rightarrow> int \<Rightarrow> bool
     \<Rightarrow> 'w \<times> content list \<times> event list" where
  "AggregateScanAndGetQueue env w pluginName currentContent counts ignoreLength =
     (case AggregateScans env w pluginName currentContent counts ignoreLength of
        (w, aggregatedScans, err) \<Rightarrow>
          (case err of
             Some e \<Rightarrow>
               (w, aggregatedScans,
                [Accept pluginName currentContent counts ignoreLength,
                 Log (AggregateScans_error e)])
           | None \<Rightarrow>
               if len_map currentContent \<noteq> 0 \<and> length aggregatedScans = 0 then
                 (w, [],
                  [Accept pluginName currentContent counts ignoreLength,
                   Log (Added_to_queue pluginName)])
               else (w, aggregatedScans, [Accept pluginName currentContent counts ignoreLength])))"

section \<open>Policy gate\<close>

text \<open>
  Lines 40 to 91 of \<open>ResultHandling\<close>: the chain of checks for one subscriber with its
  \<open>currentSettings\<close>. The result is the log lines written and whether the subscriber
  passes; \<open>False\<close> is the \<open>continue\<close> of the source.
\<close>

definition policy_gate ::
  "('w, 'p) Env \<Rightarrow> ScanService \<Rightarrow> ScanImageInfo \<Rightarrow> string \<Rightarrow> string \<Rightarrow> Settings
     \<Rightarrow> log_msg list \<times> bool" where
  "policy_gate env scan info input name cs =
     (if \<not> isNew scan \<and> \<not> PolicyShowAll cs then
        ([Old_result (GetUniqueId env info)], False)
      else if length (PolicyMinVulnerability cs) > 0
              \<and> \<not> checkVulnerabilitiesLevel info (PolicyMinVulnerability cs) then
        ([Only_low_level (GetUniqueId env info) name (PolicyMinVulnerability cs)], False)
      else if length (IgnoreRegistry cs) > 0
              \<and> compliesPolicies env (IgnoreRegistry cs) (Registry info) then
        ([Registry_ignored (Registry info) name], False)
      else if length (IgnoreImageName cs) > 0
              \<and> compliesPolicies env (IgnoreImageName cs) (Image_name info) then
        ([Image_ignored (Image_name info) name], False)
      else if length (PolicyImageName cs) > 0
              \<and> \<not> compliesPolicies env (PolicyImageName cs) (Image_name info) then
        ([Image_not_allowed (Image_name info) name], False)
      else if length (PolicyRegistry cs) > 0
              \<and> \<not> compliesPolicies env (PolicyRegistry cs) (Registry info) then
        ([Registry_not_allowed (Registry info) name], False)
      else if PolicyNonCompliant cs \<and> \<not> Disallowed info then
        ([Not_disallowed (GetUniqueId env info) name], False)
      else if PolicyOnlyFixAvailable cs \<and> \<not> checkFixVersions info then
        ([No_fix_version (GetUniqueId env info) name], False)
      else if length (PolicyOPA cs) > 0 then
        (case isRegoCorrect env (PolicyOPA cs) input of
           (res, Some e) \<Rightarrow>
             ([Uses_OPA (PluginName cs) (PolicyOPA cs), Rego_error (PluginName cs) e], False)
         | (res, None) \<Rightarrow>
             if \<not> res then
               ([Uses_OPA (PluginName cs) (PolicyOPA cs),
                 Rego_no_match (Image_name info) (PluginName cs)], False)
             else ([Uses_OPA (PluginName cs) (PolicyOPA cs)], True))
      else ([], True))"

section \<open>Aggregation and dispatch for one passing subscriber\<close>

text \<open>
  Lines 103 to 112. The result is the store state, the new value of \<open>content\<close>, the flag
  \<open>wasHandled\<close> and the events.
\<close>

definition count_step ::
  "('w, 'p) Env \<Rightarrow> 'w \<Rightarrow> string \<Rightarrow> 'p Plugin \<Rightarrow> Settings \<Rightarrow> content
     \<Rightarrow> 'w \<times> content option \<times> bool \<times> event list" where
  "count_step env w name plugin cs content =
     (if AggregateIssuesNumber cs > 0 then
        (case AggregateScanAndGetQueue env w name (Some content) (AggregateIssuesNumber cs) False of
           (w, aggregated, evs) \<Rightarrow>
             (w,
              if length aggregated > 0
              then Some (buildAggregatedContent env aggregated (GetLayoutProvider plugin))
              else None,
              True, evs))
      else (w, Some content, False, []))"

text \<open>
  Lines 114 to 134. The goroutine started at line 121 is the event \<open>Go_scheduler\<close>; its
  body is \<open>scheduler_start\<close> and \<open>scheduler_tick\<close> below. The last component is
  \<open>currentSettings\<close> after line 132.
\<close>

definition time_step ::
  "('w, 'p) Env \<Rightarrow> 'w \<Rightarrow> string \<Rightarrow> Settings \<Rightarrow> content option \<Rightarrow> bool
     \<Rightarrow> 'w \<times> content option \<times> event list \<times> Settings" where
  "time_step env w name cs content wasHandled =
     (if AggregateTimeoutSeconds cs > 0 then
        (case (if \<not> wasHandled then
                 (case AggregateScanAndGetQueue env w name content 0 True of
                    (w, queue, evs) \<Rightarrow> (w, None, evs))
               else (w, content, [])) of
           (w, content, evs) \<Rightarrow>
             if \<not> IsScheduleRun cs then
               (w, content, evs @ [Go_scheduler name], cs\<lparr>IsScheduleRun := True\<rparr>)
             else (w, content, evs, cs))
      else (w, content, [], cs))"

text \<open>Lines 136 to 138.\<close>

definition final_send :: "string \<Rightarrow> content option \<Rightarrow> event list" where
  "final_send name content =
     (case content of
        None \<Rightarrow> []
      | Some c \<Rightarrow> if length c > 0 then [Dispatch name c] else [])"

text \<open>
  Lines 40 to 138 for a non-\<open>nil\<close> plugin and its \<open>currentSettings\<close>. The last component
  is \<open>currentSettings\<close> at the end of the iteration.
\<close>

definition handle_with ::
  "('w, 'p) Env \<Rightarrow> ScanService \<Rightarrow> ScanImageInfo \<Rightarrow> string \<Rightarrow> string \<Rightarrow> 'w \<Rightarrow> string
     \<Rightarrow> 'p Plugin \<Rightarrow> Settings \<Rightarrow> 'w \<times> event list \<times> Settings" where
  "handle_with env scan info input owners w name plugin cs =
     (case policy_gate env scan info input name cs of
        (logs, False) \<Rightarrow> (w, map Log logs, cs)
      | (logs, True) \<Rightarrow>
          (case count_step env w name plugin cs
                  (plugin_content env scan info input owners plugin) of
             (w, content, wasHandled, evs1) \<Rightarrow>
               (case time_step env w name cs content wasHandled of
                  (w, content, evs2, cs) \<Rightarrow>
                    (w, map Log logs @ evs1 @ evs2 @ final_send name content, cs))))"

text \<open>
  One iteration of the loop at line 32. A \<open>nil\<close> plugin is skipped. A write to
  \<open>currentSettings\<close> reaches the plugin's settings object when \<open>GetSettings\<close> returned
  it; a write to the object returned by \<open>settings.GetDefaultSettings()\<close> is not kept.
\<close>

definition handle_plugin ::
  "('w, 'p) Env \<Rightarrow> ScanService \<Rightarrow> ScanImageInfo \<Rightarrow> string \<Rightarrow> string \<Rightarrow> 'w \<Rightarrow> string
     \<Rightarrow> 'p Plugin option \<Rightarrow> 'w \<times> event list \<times> 'p Plugin option" where
  "handle_plugin env scan info input owners w name plugin =
     (case plugin of
        None \<Rightarrow> (w, [], None)
      | Some p \<Rightarrow>
          (case GetSettings p of
             None \<Rightarrow>
               (case handle_with env scan info input owners w name p (GetDefaultSettings env) of
                  (w, evs, cs) \<Rightarrow> (w, evs, Some p))
           | Some currentSettings \<Rightarrow>
               (case handle_with env scan info input owners w name p currentSettings of
                  (w, evs, cs) \<Rightarrow> (w, evs, Some (p\<lparr>GetSettings := Some cs\<rparr>)))))"

text \<open>
  The \<open>range\<close> loop over the plugin map, in the order in which the runtime happens to
  visit the keys (the list); the keys of a map are distinct.
\<close>

fun plugins_loop ::
  "('w, 'p) Env \<Rightarrow> ScanService \<Rightarrow> ScanImageInfo \<Rightarrow> string \<Rightarrow> string \<Rightarrow> 'w
     \<Rightarrow> (string \<times> 'p Plugin option) list
     \<Rightarrow> 'w \<times> event list \<times> (string \<times> 'p Plugin option) list" where
  "plugins_loop env scan info input owners w [] = (w, [], [])"
| "plugins_loop env scan info input owners w ((name, plugin) # rest) =
     (case handle_plugin env scan info input owners w name plugin of
        (w, evs, plugin) \<Rightarrow>
          (case plugins_loop env scan info input owners w rest of
             (w, evs', rest) \<Rightarrow> (w, evs @ evs', (name, plugin) # rest)))"

section \<open>\<open>ResultHandling\<close>\<close>

text \<open>
  The result is a panic (line 26 dereferences \<open>scan.scanInfo\<close>) or the store state, the
  scan service, the events and the plugins after the call.
\<close>

definition ResultHandling ::
  "('w, 'p) Env \<Rightarrow> 'w \<Rightarrow> ScanService \<Rightarrow> string \<Rightarrow> (string \<times> 'p Plugin option) list
     \<Rightarrow> fault + ('w \<times> ScanService \<times> event list \<times> (string \<times> 'p Plugin option) list)" where
  "ResultHandling env w scan input plugins =
     (case init env w scan input of
        (w, scan, Some e) \<Rightarrow> Inr (w, scan, [Log (Init_error input e)], plugins)
      | (w, scan, None) \<Rightarrow>
          (case scanInfo scan of
             None \<Rightarrow> Inl NilDereference
           | Some info \<Rightarrow>
               (case plugins_loop env scan info input (owners_of info) w plugins of
                  (w, evs, plugins) \<Rightarrow>
                    Inr (w, scan, Log (Handling (Registry info) (Image_name info)) # evs, plugins))))"

section \<open>The scheduler goroutine\<close>

text \<open>
  Line 122, the first statement of the goroutine: \<open>plg.GetSettings()\<close> is dereferenced
  without a check.
\<close>

definition scheduler_start :: "string \<Rightarrow> 'p Plugin \<Rightarrow> fault + event list" where
  "scheduler_start nm plg =
     (case GetSettings plg of
        None \<Rightarrow> Inl NilDereference
      | Some s \<Rightarrow> Inr [Log (Scheduler_active nm (PluginName s) (AggregateTimeoutSeconds s))])"

text \<open>
  Conversion to a signed 64-bit integer with wrap-around: the value of an \<open>int64\<close>
  product that overflows.
\<close>

definition int64 :: "int \<Rightarrow> int" where
  "int64 x = (x + 2 ^ 63) mod 2 ^ 64 - 2 ^ 63"

text \<open>
  Lines 125 to 129: one iteration of the \<open>for\<close> loop. The duration
  \<open>time.Duration(seconds) * time.Second\<close> is an \<open>int64\<close> number of nanoseconds.
\<close>

definition scheduler_tick ::
  "('w, 'p) Env \<Rightarrow> 'w \<Rightarrow> string \<Rightarrow> 'p Plugin \<Rightarrow> fault + ('w \<times> event list)" where
  "scheduler_tick env w nm plg =
     (case GetSettings plg of
        None \<Rightarrow> Inl NilDereference
      | Some s \<Rightarrow>
          (case AggregateScanAndGetQueue env w nm None 0 False of
             (w, queue, evs) \<Rightarrow>
               Inr (w,
                    Sleep (int64 (AggregateTimeoutSeconds s * 1000000000)) # evs @
                    (if length queue > 0
                     then [Dispatch nm (buildAggregatedContent env queue (GetLayoutProvider plg))]
                     else []))))"

text \<open>
  The loop \<open>for { ... }\<close> has no exit; \<open>scheduler_loop n\<close> is its first \<open>n\<close> iterations.
\<close>

fun scheduler_loop ::
  "nat \<Rightarrow> ('w, 'p) Env \<Rightarrow> 'w \<Rightarrow> string \<Rightarrow> 'p Plugin \<Rightarrow> fault + ('w \<times> event list)" where
  "scheduler_loop 0 env w nm plg = Inr (w, [])"
| "scheduler_loop (Suc n) env w nm plg =
     (case scheduler_tick env w nm plg of
        Inl f \<Rightarrow> Inl f
      | Inr (w, evs) \<Rightarrow>
          (case scheduler_loop n env w nm plg of
             Inl f \<Rightarrow> Inl f
           | Inr (w, evs') \<Rightarrow> Inr (w, evs @ evs')))"

section \<open>Collaborators and inputs for the examples\<close>

text \<open>
  Modelled from the spec: \<open>dbservice.AggregateScans\<close> is defined outside \<open>handling.go\<close>.
  The spec describes the store as one bucket per subscriber key: the item (if any) is
  appended; with the ignore-length directive the bucket is always kept and nothing is
  returned; otherwise, when the size of the bucket has reached the threshold, the whole
  bucket is returned and cleared, and else nothing is returned. This store never fails.
\<close>

definition spec_AggregateScans ::
  "(string \<times> content list) list \<Rightarrow> string \<Rightarrow> content option \<Rightarrow> int \<Rightarrow> bool
     \<Rightarrow> (string \<times> content list) list \<times> content list \<times> error" where
  "spec_AggregateScans db key c threshold ignoreLength =
     (let bucket = (case map_of db key of None \<Rightarrow> [] | Some b \<Rightarrow> b)
                   @ (case c of None \<Rightarrow> [] | Some x \<Rightarrow> [x])
      in if \<not> ignoreLength \<and> threshold \<le> int (length bucket)
         then (AList.update key [] db, bucket, None)
         else (AList.update key bucket db, [], None))"

text \<open>A subscriber configuration with every option off, and a parsed scan.\<close>

definition ex_settings :: Settings where
  "ex_settings =
     \<lparr>PluginName = ''jira'', PolicyShowAll = False, PolicyMinVulnerability = [],
      IgnoreRegistry = [], IgnoreImageName = [], PolicyImageName = [], PolicyRegistry = [],
      PolicyNonCompliant = False, PolicyOnlyFixAvailable = False, PolicyOPA = [],
      AggregateIssuesNumber = 0, AggregateTimeoutSeconds = 0, IsScheduleRun = False,
      AquaServer = ''https://aqua/''\<rparr>"

definition ex_info :: ScanImageInfo where
  "ex_info =
     \<lparr>Registry = ''docker.io'', Image_name = ''library/alpine:3.9'', Negligible = 3, Low = 1,
      Medium = 2, High = 0, Critical = 0,
      Resources = [\<lparr>Vulnerabilities = [\<lparr>FixVersion = []\<rparr>, \<lparr>FixVersion = ''1.2''\<rparr>]\<rparr>],
      Disallowed = True, ApplicationScopeOwners = [''sec'', ''ops'']\<rparr>"

text \<open>A merge of a batch that lists the titles of its items.\<close>

definition ex_merge :: "content list \<Rightarrow> unit \<Rightarrow> content" where
  "ex_merge batch provider =
     [(''title'', ''Vulnerability scan report''),
      (''description'',
       Join (map (\<lambda>c. case map_of c ''title'' of None \<Rightarrow> [] | Some t \<Rightarrow> t) batch) '';'')]"

text \<open>
  An environment: a parser that fails on the empty input and otherwise returns
  \<open>ex_info\<close> with the input as image name, a scan database that knows no earlier scan,
  the store above, pattern lists that match by equality, a policy evaluator that accepts,
  and a renderer that returns the URL it is given.
\<close>

definition ex_env :: "((string \<times> content list) list, unit) Env" where
  "ex_env =
     \<lparr>parseImageInfo = (\<lambda>s. if s = [] then (None, Some ''unexpected end of JSON input'')
                             else (Some (ex_info\<lparr>Image_name := s\<rparr>), None)),
      HandleCurrentInfo = (\<lambda>w i. (w, [], True, None)),
      AggregateScans = spec_AggregateScans,
      compliesPolicies = (\<lambda>ps t. t \<in> set ps),
      isRegoCorrect = (\<lambda>rules i. (True, None)),
      GenTicketDescription = (\<lambda>p i prev url. url),
      buildAggregatedContent = ex_merge,
      GetDefaultSettings = ex_settings,
      GetUniqueId = (\<lambda>i. Registry i @ ''/'' @ Image_name i)\<rparr>"

definition ex_plugin :: "Settings \<Rightarrow> unit Plugin" where
  "ex_plugin s = \<lparr>GetSettings = Some s, GetLayoutProvider = ()\<rparr>"

definition ex_scan :: "bool \<Rightarrow> ScanService" where
  "ex_scan new = \<lparr>scanInfo = Some ex_info, prevScan = None, isNew = new\<rparr>"

text \<open>A store that fails on every call and returns \<open>batch\<close> together with its error.\<close>

definition ex_failing_env :: "content list \<Rightarrow> ((string \<times> content list) list, unit) Env" where
  "ex_failing_env batch =
     ex_env\<lparr>AggregateScans := (\<lambda>w key c k b. (w, batch, Some ''database not open''))\<rparr>"

text \<open>
  A scan database that reports every scan as a repeat and returns an earlier payload,
  and a renderer that tells whether it was given a previous scan.
\<close>

definition ex_repeat_env :: "((string \<times> content list) list, unit) Env" where
  "ex_repeat_env =
     ex_env\<lparr>HandleCurrentInfo := (\<lambda>w i. (w, ''old'', False, None)),
            GenTicketDescription :=
              (\<lambda>p i prev url. case prev of None \<Rightarrow> ''no previous scan'' | Some x \<Rightarrow> ''diff'')\<rparr>"

section \<open>The severity order in the words of the spec\<close>

text \<open>
  The five levels, their rank in the fixed order Negligible < Low < Medium < High <
  Critical, their lower-case names, and the finding count of a scan at a level. These
  follow the spec; \<open>checkVulnerabilitiesLevel\<close> above is compared with them.
\<close>

datatype severity = Sev_Negligible | Sev_Low | Sev_Medium | Sev_High | Sev_Critical

fun rank :: "severity \<Rightarrow> nat" where
  "rank Sev_Negligible = 0"
| "rank Sev_Low = 1"
| "rank Sev_Medium = 2"
| "rank Sev_High = 3"
| "rank Sev_Critical = 4"

fun level_name :: "severity \<Rightarrow> string" where
  "level_name Sev_Negligible = ''negligible''"
| "level_name Sev_Low = ''low''"
| "level_name Sev_Medium = ''medium''"
| "level_name Sev_High = ''high''"
| "level_name Sev_Critical = ''critical''"

fun count_of :: "ScanImageInfo \<Rightarrow> severity \<Rightarrow> int" where
  "count_of info Sev_Negligible = Negligible info"
| "count_of info Sev_Low = Low info"
| "count_of info Sev_Medium = Medium info"
| "count_of info Sev_High = High info"
| "count_of info Sev_Critical = Critical info"

section \<open>The scheduler guard under two concurrent calls\<close>

text \<open>
  Lines 119 to 133 of \<open>ResultHandling\<close>, for several calls that handle the same
  subscriber and share its settings object. A call is at line 119 (about to read
  \<open>IsScheduleRun\<close>), at line 120 (it has read \<open>false\<close> and entered the branch) or past
  the guard. The step at line 119 only reads the flag; the step from line 120 starts the
  goroutine (line 121) and then writes the flag (line 132). No lock or atomic operation
  joins the two steps in the source, so another call may run between them.
\<close>

datatype guard_pc = At_line_119 | At_line_120 | After_guard

record guard_state =
  flag :: bool
  started :: nat
  pcs :: "guard_pc list"

definition guard_step :: "nat \<Rightarrow> guard_state \<Rightarrow> guard_state" where
  "guard_step i st =
     (if i < length (pcs st) then
        (case pcs st ! i of
           At_line_119 \<Rightarrow>
             st\<lparr>pcs := (pcs st)[i := (if \<not> flag st then At_line_120 else After_guard)]\<rparr>
         | At_line_120 \<Rightarrow>
             st\<lparr>flag := True, started := Suc (started st), pcs := (pcs st)[i := After_guard]\<rparr>
         | After_guard \<Rightarrow> st)
      else st)"

text \<open>A schedule names the call that takes the next step.\<close>

fun guard_run :: "nat list \<Rightarrow> guard_state \<Rightarrow> guard_state" where
  "guard_run [] st = st"
| "guard_run (i # sched) st = guard_run sched (guard_step i st)"

section \<open>The loop over the subscribers\<close>

lemma plugins_loop_append:
  "plugins_loop env scan info input owners w (ps @ qs) =
     (case plugins_loop env scan info input owners w ps of
        (w1, evs1, ps') \<Rightarrow>
          (case plugins_loop env scan info input owners w1 qs of
             (w2, evs2, qs') \<Rightarrow> (w2, evs1 @ evs2, ps' @ qs')))"
proof (induction ps arbitrary: w)
  case Nil
  show ?case by (simp split: prod.splits)
next
  case (Cons a ps)
  obtain n p where a: "a = (n, p)" by (cases a)
  obtain w' evs p' where h: "handle_plugin env scan info input owners w n p = (w', evs, p')"
    by (cases "handle_plugin env scan info input owners w n p")
  show ?case using Cons.IH[of w'] by (simp add: a h split: prod.splits)
qed

lemma plugins_loop_length:
  "length (snd (snd (plugins_loop env scan info input owners w ps))) = length ps"
proof (induction ps arbitrary: w)
  case Nil
  show ?case by simp
next
  case (Cons a ps)
  obtain n p where a: "a = (n, p)" by (cases a)
  obtain w' evs p' where h: "handle_plugin env scan info input owners w n p = (w', evs, p')"
    by (cases "handle_plugin env scan info input owners w n p")
  show ?case using Cons.IH[of w'] by (auto simp: a h split: prod.splits)
qed

section \<open>The first check of the chain\<close>

lemma gate_old:
  "\<not> isNew scan \<Longrightarrow> \<not> PolicyShowAll cs \<Longrightarrow>
   handle_with env scan info input owners w name p cs
     = (w, [Log (Old_result (GetUniqueId env info))], cs)"
  by (simp add: handle_with_def policy_gate_def)

section \<open>Policy gate: freshness\<close>

text \<open>
  Claim C4. When the scan is not new (\<open>isNew\<close> is false) and the subscriber's current
  settings (its own, or the default ones when it has none) have \<open>PolicyShowAll\<close> off,
  the iteration for that subscriber leaves the store as it was and produces one log line
  and nothing else: no call of the store, no dispatch. The result does not depend on
  any later check of the chain.
\<close>

theorem freshness_gate:
  assumes "\<not> isNew scan"
    and "cs = (case GetSettings p of None \<Rightarrow> GetDefaultSettings env | Some s \<Rightarrow> s)"
    and "\<not> PolicyShowAll cs"
  shows "handle_plugin env scan info input owners w name (Some p)
           = (w, [Log (Old_result (GetUniqueId env info))], Some p)"
proof (cases "GetSettings p")
  case None
  with assms(2) have cs: "cs = GetDefaultSettings env" by simp
  show ?thesis
    using gate_old [OF assms(1) assms(3), of env info input owners w name p]
    by (simp add: handle_plugin_def None cs)
next
  case (Some s)
  with assms(2) have cs: "cs = s" by simp
  have p: "p\<lparr>GetSettings := Some s\<rparr> = p"
    using Some by (cases p) simp
  show ?thesis
    using gate_old [OF assms(1) assms(3), of env info input owners w name p]
    by (simp add: handle_plugin_def Some cs p)
qed

theorem freshness_gate_witness:
  "\<not> isNew (ex_scan False)
   \<and> \<not> PolicyShowAll (ex_settings\<lparr>PolicyOPA := [''rule.rego'']\<rparr>)
   \<and> handle_plugin ex_env (ex_scan False) ex_info ''{}'' ''sec;ops'' [] ''jira''
        (Some (ex_plugin (ex_settings\<lparr>PolicyOPA := [''rule.rego'']\<rparr>)))
      = ([], [Log (Old_result ''docker.io/library/alpine:3.9'')],
         Some (ex_plugin (ex_settings\<lparr>PolicyOPA := [''rule.rego'']\<rparr>)))"
proof -
  have a: "\<not> isNew (ex_scan False)"
    by (simp add: ex_scan_def)
  have b: "ex_settings\<lparr>PolicyOPA := [''rule.rego'']\<rparr> =
        (case GetSettings (ex_plugin (ex_settings\<lparr>PolicyOPA := [''rule.rego'']\<rparr>)) of
           None \<Rightarrow> GetDefaultSettings ex_env | Some s \<Rightarrow> s)"
    by (simp add: ex_plugin_def)
  have c: "\<not> PolicyShowAll (ex_settings\<lparr>PolicyOPA := [''rule.rego'']\<rparr>)"
    by (simp add: ex_settings_def)
  have u: "GetUniqueId ex_env ex_info = ''docker.io/library/alpine:3.9''"
    by (simp add: ex_env_def ex_info_def)
  show ?thesis
    using a c freshness_gate [OF a b c, where info = ex_info and input = "''{}''"
        and owners = "''sec;ops''" and w = "[]" and name = "''jira''"]
    by (simp only: u simp_thms)
qed

section \<open>The guard of the scheduler in one call\<close>

text \<open>
  In one call the guard works: with a positive timeout the settings leave the time-based
  step with \<open>IsScheduleRun\<close> set, and the goroutine is started exactly when the flag was
  not set before.
\<close>

lemma time_step_sets_flag:
  assumes "0 < AggregateTimeoutSeconds cs"
    and "time_step env w name cs content wasHandled = (w', content', evs, cs')"
  shows "IsScheduleRun cs' \<and> (Go_scheduler name \<in> set evs) = (\<not> IsScheduleRun cs)"
  using assms
  by (auto simp: time_step_def AggregateScanAndGetQueue_def
      split: prod.splits option.splits if_splits)

section \<open>Degenerate entries of the plugin map\<close>

text \<open>
  A \<open>nil\<close> plugin is skipped: the loop over a map with such an entry ends in the same
  store state with the same effects as the loop without it, and the other plugins end
  as they do without it.
\<close>

lemma nil_plugin_skipped:
  "plugins_loop env scan info input owners w (ps @ (name, None) # qs) =
     (case plugins_loop env scan info input owners w (ps @ qs) of
        (w', evs, rs) \<Rightarrow>
          (w', evs, take (length ps) rs @ (name, None) # drop (length ps) rs))"
proof -
  obtain w1 evs1 ps' where p1: "plugins_loop env scan info input owners w ps = (w1, evs1, ps')"
    by (cases "plugins_loop env scan info input owners w ps")
  obtain w2 evs2 qs' where p2: "plugins_loop env scan info input owners w1 qs = (w2, evs2, qs')"
    by (cases "plugins_loop env scan info input owners w1 qs")
  have l: "length ps' = length ps"
    using plugins_loop_length [of env scan info input owners w ps] by (simp add: p1)
  have "plugins_loop env scan info input owners w (ps @ (name, None) # qs) =
        (w2, evs1 @ evs2, ps' @ (name, None) # qs')"
    by (simp add: plugins_loop_append [of _ _ _ _ _ _ ps] p1 p2 handle_plugin_def)
  moreover have "plugins_loop env scan info input owners w (ps @ qs) =
        (w2, evs1 @ evs2, ps' @ qs')"
    by (simp add: plugins_loop_append [of _ _ _ _ _ _ ps] p1 p2)
  ultimately show ?thesis
    by (simp add: l)
qed

text \<open>
  A plugin whose \<open>GetSettings\<close> returns \<open>nil\<close> is checked against the default settings
  (lines 37 to 39), and line 94 tests for \<open>nil\<close> before it reads the server. The
  goroutine of line 121 has no such test. Whenever the default settings let the scan
  pass, have a positive \<open>AggregateTimeoutSeconds\<close> and \<open>IsScheduleRun\<close> unset, the
  iteration returns and starts the scheduler for that plugin, and the goroutine
  dereferences \<open>plg.GetSettings()\<close> in its first statement (line 123) and, were it
  to get further, in every iteration of its loop (line 125).
\<close>

lemma nil_settings_start_scheduler:
  assumes nil: "GetSettings p = None"
    and gate: "policy_gate env scan info input name (GetDefaultSettings env) = (logs, True)"
    and tmo: "0 < AggregateTimeoutSeconds (GetDefaultSettings env)"
    and run: "\<not> IsScheduleRun (GetDefaultSettings env)"
  shows "\<exists>w' evs. handle_plugin env scan info input owners w name (Some p) = (w', evs, Some p)
           \<and> Go_scheduler name \<in> set evs"
    and "scheduler_start name p = Inl NilDereference"
    and "scheduler_tick env v name p = Inl NilDereference"
proof -
  let ?d = "GetDefaultSettings env"
  obtain w1 c h evs1 where cnt: "count_step env w name p ?d
      (plugin_content env scan info input owners p) = (w1, c, h, evs1)"
    by (cases "count_step env w name p ?d (plugin_content env scan info input owners p)") auto
  obtain w2 c2 evs2 cs2 where t: "time_step env w1 name ?d c h = (w2, c2, evs2, cs2)"
    by (cases "time_step env w1 name ?d c h") auto
  have "Go_scheduler name \<in> set evs2"
    using time_step_sets_flag [OF tmo t] run by simp
  moreover have "handle_plugin env scan info input owners w name (Some p)
      = (w2, map Log logs @ evs1 @ evs2 @ final_send name c2, Some p)"
    by (simp add: handle_plugin_def nil handle_with_def gate cnt t)
  ultimately show "\<exists>w' evs. handle_plugin env scan info input owners w name (Some p)
           = (w', evs, Some p) \<and> Go_scheduler name \<in> set evs"
    by simp
  show "scheduler_start name p = Inl NilDereference"
    by (simp add: scheduler_start_def nil)
  show "scheduler_tick env v name p = Inl NilDereference"
    by (simp add: scheduler_tick_def nil)
qed


section \<open>The scheduler's drain request\<close>

text \<open>
  Claim C7, as amended. When the plugin has settings, one iteration of the scheduler
  loop returns, and it calls the store exactly once, with the \<open>nil\<close> content, the
  threshold \<open>0\<close> and the ignore-length flag \<open>false\<close>.
\<close>

theorem drain_request_args:
  assumes "GetSettings plg = Some s"
  shows "\<exists>w' evs. scheduler_tick env w nm plg = Inr (w', evs)
           \<and> filter is_accept evs = [Accept nm None 0 False]"
  using assms
  by (auto simp: scheduler_tick_def AggregateScanAndGetQueue_def split: prod.splits option.splits)

theorem drain_request_args_witness:
  "GetSettings (ex_plugin (ex_settings\<lparr>AggregateTimeoutSeconds := 60\<rparr>))
     = Some (ex_settings\<lparr>AggregateTimeoutSeconds := 60\<rparr>)
   \<and> (\<exists>w' evs. scheduler_tick ex_env [] ''jira''
                    (ex_plugin (ex_settings\<lparr>AggregateTimeoutSeconds := 60\<rparr>)) = Inr (w', evs)
           \<and> filter is_accept evs = [Accept ''jira'' None 0 False])"
  using drain_request_args [where plg = "ex_plugin (ex_settings\<lparr>AggregateTimeoutSeconds := 60\<rparr>)"
      and s = "ex_settings\<lparr>AggregateTimeoutSeconds := 60\<rparr>" and env = ex_env and w = "[]"
      and nm = "''jira''"]
  by (simp add: ex_plugin_def)

text \<open>
  Claim C7, as stated, at a concrete subscriber: the drain of the scheduler is requested
  with the ignore-length flag \<open>false\<close>, not \<open>true\<close>.
\<close>

theorem drain_request_counterexample:
  "scheduler_tick ex_env [] ''jira'' (ex_plugin (ex_settings\<lparr>AggregateTimeoutSeconds := 60\<rparr>))
     = Inr ([(''jira'', [])], [Sleep 60000000000, Accept ''jira'' None 0 False])"
  by (simp add: scheduler_tick_def AggregateScanAndGetQueue_def ex_env_def
      spec_AggregateScans_def ex_settings_def ex_plugin_def int64_def)

section \<open>Facts about the aggregation helper and the two aggregation steps\<close>

lemma update_not_Nil: "AList.update k v al \<noteq> []"
  by (cases al) auto

lemma plugin_content_not_Nil: "plugin_content env scan info input owners p \<noteq> []"
  by (simp add: plugin_content_def Let_def update_not_Nil)

lemma helper_returns_batch:
  assumes "AggregateScans env w n (Some c) k b = (w', batch, err)" and "c \<noteq> []"
  shows "\<exists>logs. AggregateScanAndGetQueue env w n (Some c) k b
           = (w', batch, Accept n (Some c) k b # map Log logs)"
proof (cases err)
  case None
  show ?thesis
  proof (cases "batch = []")
    case True
    have "AggregateScanAndGetQueue env w n (Some c) k b
            = (w', batch, Accept n (Some c) k b # map Log [Added_to_queue n])"
      using assms None True by (simp add: AggregateScanAndGetQueue_def)
    then show ?thesis by blast
  next
    case False
    have "AggregateScanAndGetQueue env w n (Some c) k b
            = (w', batch, Accept n (Some c) k b # map Log [])"
      using assms None False by (simp add: AggregateScanAndGetQueue_def)
    then show ?thesis by blast
  qed
next
  case (Some e)
  have "AggregateScanAndGetQueue env w n (Some c) k b
          = (w', batch, Accept n (Some c) k b # map Log [AggregateScans_error e])"
    using assms Some by (simp add: AggregateScanAndGetQueue_def)
  then show ?thesis by blast
qed

lemma filter_accept_logs [simp]: "filter is_accept (map Log logs) = []"
  by (induction logs) auto

lemma filter_dispatch_logs [simp]: "filter is_dispatch (map Log logs) = []"
  by (induction logs) auto

lemma time_step_handled:
  "\<exists>evs cs'. time_step env w name cs content True = (w, content, evs, cs')
      \<and> filter is_accept evs = [] \<and> filter is_dispatch evs = []"
  by (simp add: time_step_def)

lemma helper_nil_returns_queue:
  assumes "AggregateScans env w n None k b = (w', queue, err)"
  shows "\<exists>logs. AggregateScanAndGetQueue env w n None k b
           = (w', queue, Accept n None k b # map Log logs)"
proof (cases err)
  case None
  have "AggregateScanAndGetQueue env w n None k b = (w', queue, Accept n None k b # map Log [])"
    using assms None by (simp add: AggregateScanAndGetQueue_def)
  then show ?thesis by blast
next
  case (Some e)
  have "AggregateScanAndGetQueue env w n None k b
          = (w', queue, Accept n None k b # map Log [AggregateScans_error e])"
    using assms Some by (simp add: AggregateScanAndGetQueue_def)
  then show ?thesis by blast
qed

lemma time_step_unhandled:
  assumes "0 < AggregateTimeoutSeconds cs"
    and "AggregateScanAndGetQueue env w name (Some c) 0 True = (w', q, evs)"
  shows "\<exists>evs2 cs'. time_step env w name cs (Some c) False = (w', None, evs @ evs2, cs')
           \<and> filter is_accept evs2 = [] \<and> filter is_dispatch evs2 = []"
  using assms by (simp add: time_step_def)

lemma handle_with_count:
  assumes gate: "policy_gate env scan info input name cs = (logs, True)"
    and thr: "0 < AggregateIssuesNumber cs"
    and store: "AggregateScans env w name (Some (plugin_content env scan info input owners p))
                  (AggregateIssuesNumber cs) False = (w', batch, err)"
    and merged: "batch \<noteq> [] \<longrightarrow> buildAggregatedContent env batch (GetLayoutProvider p) \<noteq> []"
  shows "\<exists>evs cs'. handle_with env scan info input owners w name p cs = (w', evs, cs')
           \<and> filter is_accept evs
               = [Accept name (Some (plugin_content env scan info input owners p))
                    (AggregateIssuesNumber cs) False]
           \<and> filter is_dispatch evs
               = (if batch = [] then []
                  else [Dispatch name (buildAggregatedContent env batch (GetLayoutProvider p))])"
proof -
  let ?c = "plugin_content env scan info input owners p"
  let ?m = "buildAggregatedContent env batch (GetLayoutProvider p)"
  obtain ls where h: "AggregateScanAndGetQueue env w name (Some ?c) (AggregateIssuesNumber cs) False
           = (w', batch, Accept name (Some ?c) (AggregateIssuesNumber cs) False # map Log ls)"
    using helper_returns_batch [OF store plugin_content_not_Nil] by blast
  have cnt: "count_step env w name p cs ?c
        = (w', if batch = [] then None else Some ?m, True,
           Accept name (Some ?c) (AggregateIssuesNumber cs) False # map Log ls)"
    using thr by (simp add: count_step_def h)
  obtain evs2 cs' where t: "time_step env w' name cs (if batch = [] then None else Some ?m) True
        = (w', if batch = [] then None else Some ?m, evs2, cs')"
    and t2: "filter is_accept evs2 = []" "filter is_dispatch evs2 = []"
    using time_step_handled [of env w' name cs "if batch = [] then None else Some ?m"] by blast
  have fs: "final_send name (if batch = [] then None else Some ?m)
        = (if batch = [] then [] else [Dispatch name ?m])"
    using merged by (simp add: final_send_def)
  have "handle_with env scan info input owners w name p cs
        = (w', map Log logs @ (Accept name (Some ?c) (AggregateIssuesNumber cs) False # map Log ls)
               @ evs2 @ (if batch = [] then [] else [Dispatch name ?m]), cs')"
    by (simp add: handle_with_def gate cnt t fs)
  then show ?thesis using t2 by simp
qed


lemma ex_gate_passes:
  "policy_gate ex_env (ex_scan True) ex_info input name
     (ex_settings\<lparr>AggregateIssuesNumber := k, AggregateTimeoutSeconds := t\<rparr>) = ([], True)"
  by (simp add: policy_gate_def ex_scan_def ex_settings_def)

lemma ex_failing_gate_passes:
  "policy_gate (ex_failing_env batch) (ex_scan True) ex_info input name
     (ex_settings\<lparr>AggregateIssuesNumber := k, AggregateTimeoutSeconds := t\<rparr>) = ([], True)"
  by (simp add: policy_gate_def ex_scan_def ex_settings_def)

section \<open>Count-based aggregation\<close>

text \<open>
  Claim C1. For a subscriber that passes the gate and whose \<open>AggregateIssuesNumber\<close> is
  greater than \<open>0\<close>, the iteration calls the store exactly once, with the built content,
  that threshold and the ignore-length flag off. If the batch the store returns is not
  empty, the iteration dispatches exactly once, and the content sent is the merge of that
  batch; if the batch is empty, it dispatches nothing. The store state after the
  iteration is the one the store returned. The merge of a non-empty batch is taken to
  be a non-empty content, which is the builder's contract in the spec.
\<close>

theorem count_aggregation:
  assumes "policy_gate env scan info input name cs = (logs, True)"
    and "0 < AggregateIssuesNumber cs"
    and "AggregateScans env w name (Some (plugin_content env scan info input owners p))
           (AggregateIssuesNumber cs) False = (w', batch, err)"
    and "batch \<noteq> [] \<longrightarrow> buildAggregatedContent env batch (GetLayoutProvider p) \<noteq> []"
  shows "\<exists>evs cs'. handle_with env scan info input owners w name p cs = (w', evs, cs')
           \<and> filter is_accept evs
               = [Accept name (Some (plugin_content env scan info input owners p))
                    (AggregateIssuesNumber cs) False]
           \<and> filter is_dispatch evs
               = (if batch = [] then []
                  else [Dispatch name (buildAggregatedContent env batch (GetLayoutProvider p))])"
  using assms by (rule handle_with_count)

theorem count_aggregation_witness:
  "0 < AggregateIssuesNumber (ex_settings\<lparr>AggregateIssuesNumber := 2, AggregateTimeoutSeconds := 0\<rparr>)
   \<and> (\<exists>evs cs'.
        handle_with ex_env (ex_scan True) ex_info ''{}'' ''sec;ops'' [(''jira'', [[(''title'', ''A'')]])]
          ''jira'' (ex_plugin ex_settings)
          (ex_settings\<lparr>AggregateIssuesNumber := 2, AggregateTimeoutSeconds := 0\<rparr>)
          = ([(''jira'', [])], evs, cs')
        \<and> filter is_dispatch evs
            = [Dispatch ''jira''
                 (ex_merge [[(''title'', ''A'')],
                    plugin_content ex_env (ex_scan True) ex_info ''{}'' ''sec;ops''
                      (ex_plugin ex_settings)] ())])"
proof -
  let ?cs = "ex_settings\<lparr>AggregateIssuesNumber := 2, AggregateTimeoutSeconds := 0\<rparr>"
  let ?c = "plugin_content ex_env (ex_scan True) ex_info ''{}'' ''sec;ops'' (ex_plugin ex_settings)"
  have thr: "0 < AggregateIssuesNumber ?cs"
    by simp
  have store: "AggregateScans ex_env [(''jira'', [[(''title'', ''A'')]])] ''jira'' (Some ?c)
                 (AggregateIssuesNumber ?cs) False
               = ([(''jira'', [])], [[(''title'', ''A'')], ?c], None)"
    by (simp add: ex_env_def spec_AggregateScans_def)
  have merged: "[[(''title'', ''A'')], ?c] \<noteq> [] \<longrightarrow>
      buildAggregatedContent ex_env [[(''title'', ''A'')], ?c] (GetLayoutProvider (ex_plugin ex_settings)) \<noteq> []"
    by (simp add: ex_env_def ex_merge_def)
  have m: "buildAggregatedContent ex_env [[(''title'', ''A'')], ?c] (GetLayoutProvider (ex_plugin ex_settings))
      = ex_merge [[(''title'', ''A'')], ?c] ()"
    by (simp add: ex_env_def)
  show ?thesis
    using thr count_aggregation [OF ex_gate_passes thr store merged]
    by (simp only: m list.simps if_False simp_thms) blast
qed

section \<open>Time-based aggregation\<close>

text \<open>
  Claim C2. For a subscriber that passes the gate, whose \<open>AggregateTimeoutSeconds\<close> is
  greater than \<open>0\<close> and whose item was not handed to the store by the count-based step
  (\<open>AggregateIssuesNumber\<close> is not positive), the iteration calls the store exactly once,
  with the built content, threshold \<open>0\<close> and the ignore-length flag on, and dispatches
  nothing. One iteration of the scheduler loop returns and dispatches the merge of the
  drained queue exactly when that queue is not empty, and nothing when it is empty.
\<close>

theorem time_aggregation:
  assumes gate: "policy_gate env scan info input name cs = (logs, True)"
    and thr: "AggregateIssuesNumber cs \<le> 0"
    and tmo: "0 < AggregateTimeoutSeconds cs"
    and store: "AggregateScans env w name (Some (plugin_content env scan info input owners p)) 0 True
                  = (w', batch, err)"
    and plg: "GetSettings plg = Some s"
    and drain: "AggregateScans env v nm None 0 False = (v', queue, derr)"
  shows "(\<exists>evs cs'. handle_with env scan info input owners w name p cs = (w', evs, cs')
            \<and> filter is_accept evs
                = [Accept name (Some (plugin_content env scan info input owners p)) 0 True]
            \<and> filter is_dispatch evs = [])
         \<and> (\<exists>evs. scheduler_tick env v nm plg = Inr (v', evs)
               \<and> filter is_dispatch evs
                   = (if queue = [] then []
                      else [Dispatch nm (buildAggregatedContent env queue (GetLayoutProvider plg))]))"
proof -
  let ?c = "plugin_content env scan info input owners p"
  obtain ls where h: "AggregateScanAndGetQueue env w name (Some ?c) 0 True
           = (w', batch, Accept name (Some ?c) 0 True # map Log ls)"
    using helper_returns_batch [OF store plugin_content_not_Nil] by blast
  have cnt: "count_step env w name p cs ?c = (w, Some ?c, False, [])"
    using thr by (simp add: count_step_def)
  obtain evs2 cs' where t: "time_step env w name cs (Some ?c) False
        = (w', None, (Accept name (Some ?c) 0 True # map Log ls) @ evs2, cs')"
    and t2: "filter is_accept evs2 = []" "filter is_dispatch evs2 = []"
    using time_step_unhandled [OF tmo h] by blast
  have "handle_with env scan info input owners w name p cs
        = (w', map Log logs @ (Accept name (Some ?c) 0 True # map Log ls) @ evs2, cs')"
    by (simp add: handle_with_def gate cnt t final_send_def)
  then have first: "\<exists>evs cs'. handle_with env scan info input owners w name p cs = (w', evs, cs')
            \<and> filter is_accept evs = [Accept name (Some ?c) 0 True]
            \<and> filter is_dispatch evs = []"
    using t2 by simp
  obtain ds where d: "AggregateScanAndGetQueue env v nm None 0 False
           = (v', queue, Accept nm None 0 False # map Log ds)"
    using helper_nil_returns_queue [OF drain] by blast
  have "scheduler_tick env v nm plg
        = Inr (v', Sleep (int64 (AggregateTimeoutSeconds s * 1000000000))
                 # (Accept nm None 0 False # map Log ds) @
                 (if queue = [] then []
                  else [Dispatch nm (buildAggregatedContent env queue (GetLayoutProvider plg))]))"
    by (simp add: scheduler_tick_def plg d)
  then have second: "\<exists>evs. scheduler_tick env v nm plg = Inr (v', evs)
               \<and> filter is_dispatch evs
                   = (if queue = [] then []
                      else [Dispatch nm (buildAggregatedContent env queue (GetLayoutProvider plg))])"
    by simp
  from first second show ?thesis by blast
qed


theorem time_aggregation_witness:
  "AggregateIssuesNumber (ex_settings\<lparr>AggregateIssuesNumber := 0, AggregateTimeoutSeconds := 60\<rparr>) \<le> 0
   \<and> 0 < AggregateTimeoutSeconds (ex_settings\<lparr>AggregateIssuesNumber := 0, AggregateTimeoutSeconds := 60\<rparr>)
   \<and> (\<exists>evs cs'.
        handle_with ex_env (ex_scan True) ex_info ''{}'' ''sec;ops'' [] ''jira''
          (ex_plugin ex_settings)
          (ex_settings\<lparr>AggregateIssuesNumber := 0, AggregateTimeoutSeconds := 60\<rparr>)
          = ([(''jira'', [plugin_content ex_env (ex_scan True) ex_info ''{}'' ''sec;ops''
                            (ex_plugin ex_settings)])], evs, cs')
        \<and> filter is_dispatch evs = [])
   \<and> (\<exists>evs.
        scheduler_tick ex_env
          [(''jira'', [plugin_content ex_env (ex_scan True) ex_info ''{}'' ''sec;ops''
                         (ex_plugin ex_settings)])]
          ''jira'' (ex_plugin ex_settings) = Inr ([(''jira'', [])], evs)
        \<and> filter is_dispatch evs
            = [Dispatch ''jira''
                 (ex_merge [plugin_content ex_env (ex_scan True) ex_info ''{}'' ''sec;ops''
                              (ex_plugin ex_settings)] ())])"
proof -
  let ?cs = "ex_settings\<lparr>AggregateIssuesNumber := 0, AggregateTimeoutSeconds := 60\<rparr>"
  let ?c = "plugin_content ex_env (ex_scan True) ex_info ''{}'' ''sec;ops'' (ex_plugin ex_settings)"
  have thr: "AggregateIssuesNumber ?cs \<le> 0"
    by simp
  have tmo: "0 < AggregateTimeoutSeconds ?cs"
    by simp
  have store: "AggregateScans ex_env [] ''jira'' (Some ?c) 0 True = ([(''jira'', [?c])], [], None)"
    by (simp add: ex_env_def spec_AggregateScans_def)
  have plg: "GetSettings (ex_plugin ex_settings) = Some ex_settings"
    by (simp add: ex_plugin_def)
  have drain: "AggregateScans ex_env [(''jira'', [?c])] ''jira'' None 0 False
                 = ([(''jira'', [])], [?c], None)"
    by (simp add: ex_env_def spec_AggregateScans_def)
  have m: "buildAggregatedContent ex_env [?c] (GetLayoutProvider (ex_plugin ex_settings))
             = ex_merge [?c] ()"
    by (simp add: ex_env_def)
  show ?thesis
    using thr tmo time_aggregation [OF ex_gate_passes thr tmo store plg drain]
    by (simp only: m list.simps if_False simp_thms) blast
qed

section \<open>Failure of the aggregation store\<close>

text \<open>
  Claim C6, as amended. When the store returns an error, the helper logs it and returns
  the batch that came with the error, unchanged. When that batch is empty, a subscriber
  on the count-based path dispatches nothing in that iteration, and the loop goes on
  with the remaining subscribers from the store state the failed call left.
\<close>

theorem store_failure:
  assumes store: "AggregateScans env w name c k b = (w', batch, Some e)"
  shows "AggregateScanAndGetQueue env w name c k b
           = (w', batch, [Accept name c k b, Log (AggregateScans_error e)])
         \<and> (policy_gate env scan info input name cs = (logs, True)
              \<and> 0 < AggregateIssuesNumber cs
              \<and> c = Some (plugin_content env scan info input owners p)
              \<and> k = AggregateIssuesNumber cs \<and> \<not> b \<and> batch = []
            \<longrightarrow> (\<exists>evs cs'. handle_with env scan info input owners w name p cs = (w', evs, cs')
                    \<and> filter is_dispatch evs = []
                    \<and> (\<forall>plg. GetSettings plg = Some cs \<longrightarrow>
                          plugins_loop env scan info input owners w ((name, Some plg) # rest)
                          = (case handle_with env scan info input owners w name plg cs of
                               (w1, evs1, cs1) \<Rightarrow>
                                 (case plugins_loop env scan info input owners w1 rest of
                                    (w2, evs2, rest') \<Rightarrow>
                                      (w2, evs1 @ evs2,
                                       (name, Some (plg\<lparr>GetSettings := Some cs1\<rparr>)) # rest'))))))"
proof -
  have h: "AggregateScanAndGetQueue env w name c k b
           = (w', batch, [Accept name c k b, Log (AggregateScans_error e)])"
    using store by (simp add: AggregateScanAndGetQueue_def)
  have loop: "plugins_loop env scan info input owners w ((name, Some plg) # rest)
        = (case handle_with env scan info input owners w name plg cs of
             (w1, evs1, cs1) \<Rightarrow>
               (case plugins_loop env scan info input owners w1 rest of
                  (w2, evs2, rest') \<Rightarrow>
                    (w2, evs1 @ evs2, (name, Some (plg\<lparr>GetSettings := Some cs1\<rparr>)) # rest')))"
    if "GetSettings plg = Some cs" for plg
    using that by (simp add: handle_plugin_def split: prod.splits)
  have sub: "\<exists>evs cs'. handle_with env scan info input owners w name p cs = (w', evs, cs')
                    \<and> filter is_dispatch evs = []"
    if g: "policy_gate env scan info input name cs = (logs, True)"
      and thr: "0 < AggregateIssuesNumber cs"
      and c: "c = Some (plugin_content env scan info input owners p)"
      and k: "k = AggregateIssuesNumber cs" and b: "\<not> b" and e: "batch = []"
  proof -
    have st: "AggregateScans env w name (Some (plugin_content env scan info input owners p))
                (AggregateIssuesNumber cs) False = (w', batch, Some e)"
      using store c k b by simp
    have mg: "batch \<noteq> [] \<longrightarrow> buildAggregatedContent env batch (GetLayoutProvider p) \<noteq> []"
      using e by simp
    show ?thesis
      using handle_with_count [OF g thr st mg] e by auto
  qed
  show ?thesis
    using h sub loop by blast
qed


theorem store_failure_witness:
  "AggregateScans (ex_failing_env []) [] ''jira''
     (Some (plugin_content (ex_failing_env []) (ex_scan True) ex_info ''{}'' ''sec;ops''
              (ex_plugin ex_settings))) 2 False = ([], [], Some ''database not open'')
   \<and> AggregateScanAndGetQueue (ex_failing_env []) [] ''jira''
         (Some (plugin_content (ex_failing_env []) (ex_scan True) ex_info ''{}'' ''sec;ops''
                  (ex_plugin ex_settings))) 2 False
       = ([], [],
          [Accept ''jira''
             (Some (plugin_content (ex_failing_env []) (ex_scan True) ex_info ''{}'' ''sec;ops''
                      (ex_plugin ex_settings))) 2 False,
           Log (AggregateScans_error ''database not open'')])
   \<and> (\<exists>evs cs'.
         handle_with (ex_failing_env []) (ex_scan True) ex_info ''{}'' ''sec;ops'' [] ''jira''
           (ex_plugin ex_settings)
           (ex_settings\<lparr>AggregateIssuesNumber := 2, AggregateTimeoutSeconds := 0\<rparr>)
           = ([], evs, cs')
         \<and> filter is_dispatch evs = [])"
proof -
  let ?cs = "ex_settings\<lparr>AggregateIssuesNumber := 2, AggregateTimeoutSeconds := 0\<rparr>"
  let ?c = "plugin_content (ex_failing_env []) (ex_scan True) ex_info ''{}'' ''sec;ops''
              (ex_plugin ex_settings)"
  have store: "AggregateScans (ex_failing_env []) [] ''jira'' (Some ?c) 2 False
                 = ([], [], Some ''database not open'')"
    by (simp add: ex_failing_env_def)
  have thr: "0 < AggregateIssuesNumber ?cs" and k: "2 = AggregateIssuesNumber ?cs"
    by simp_all
  show ?thesis
    using store thr k ex_failing_gate_passes [where batch = "[]" and input = "''{}''" and name = "''jira''"
        and k = 2 and t = 0]
      store_failure [OF store, where scan = "ex_scan True" and info = ex_info
        and input = "''{}''" and cs = ?cs and logs = "[]" and owners = "''sec;ops''"
        and p = "ex_plugin ex_settings" and rest = "[]"]
    by blast
qed

text \<open>
  Claim C6, as stated, at a store whose failing call returns a batch of one item
  together with its error: the helper returns that batch, and the subscriber is sent
  the merge of it in the same iteration.
\<close>

theorem store_failure_counterexample:
  "AggregateScans (ex_failing_env [[(''title'', ''B'')]]) [] ''jira''
     (Some (plugin_content (ex_failing_env [[(''title'', ''B'')]]) (ex_scan True) ex_info ''{}''
              ''sec;ops'' (ex_plugin ex_settings))) 2 False
     = ([], [[(''title'', ''B'')]], Some ''database not open'')
   \<and> fst (snd (AggregateScanAndGetQueue (ex_failing_env [[(''title'', ''B'')]]) [] ''jira''
         (Some (plugin_content (ex_failing_env [[(''title'', ''B'')]]) (ex_scan True) ex_info ''{}''
                  ''sec;ops'' (ex_plugin ex_settings))) 2 False))
       = [[(''title'', ''B'')]]
   \<and> filter is_dispatch
         (fst (snd (handle_with (ex_failing_env [[(''title'', ''B'')]]) (ex_scan True) ex_info ''{}''
                      ''sec;ops'' [] ''jira'' (ex_plugin ex_settings)
                      (ex_settings\<lparr>AggregateIssuesNumber := 2, AggregateTimeoutSeconds := 0\<rparr>))))
       = [Dispatch ''jira'' (ex_merge [[(''title'', ''B'')]] ())]"
proof -
  let ?env = "ex_failing_env [[(''title'', ''B'')]]"
  let ?cs = "ex_settings\<lparr>AggregateIssuesNumber := 2, AggregateTimeoutSeconds := 0\<rparr>"
  let ?c = "plugin_content ?env (ex_scan True) ex_info ''{}'' ''sec;ops'' (ex_plugin ex_settings)"
  have store: "AggregateScans ?env [] ''jira'' (Some ?c) (AggregateIssuesNumber ?cs) False
                 = ([], [[(''title'', ''B'')]], Some ''database not open'')"
    by (simp add: ex_failing_env_def)
  have thr: "0 < AggregateIssuesNumber ?cs"
    by simp
  have m: "buildAggregatedContent ?env [[(''title'', ''B'')]] (GetLayoutProvider (ex_plugin ex_settings))
             = ex_merge [[(''title'', ''B'')]] ()"
    by (simp add: ex_failing_env_def ex_env_def)
  have merged: "[[(''title'', ''B'')]] \<noteq> [] \<longrightarrow>
      buildAggregatedContent ?env [[(''title'', ''B'')]] (GetLayoutProvider (ex_plugin ex_settings)) \<noteq> []"
    by (simp add: ex_failing_env_def ex_env_def ex_merge_def)
  have h: "fst (snd (AggregateScanAndGetQueue ?env [] ''jira'' (Some ?c) 2 False))
             = [[(''title'', ''B'')]]"
    using store by (simp add: AggregateScanAndGetQueue_def)
  have d: "filter is_dispatch
         (fst (snd (handle_with ?env (ex_scan True) ex_info ''{}''
                      ''sec;ops'' [] ''jira'' (ex_plugin ex_settings) ?cs)))
       = [Dispatch ''jira'' (ex_merge [[(''title'', ''B'')]] ())]"
    using handle_with_count [OF ex_failing_gate_passes thr store merged]
    by (auto simp: ex_failing_env_def ex_env_def)
  show ?thesis
    using store h d by simp
qed


section \<open>Content of a passing subscriber\<close>

lemma Join_owners: "owners_of info = Join (ApplicationScopeOwners info) '';''"
  by (simp add: owners_of_def)

text \<open>
  Claim C8, as amended. The content built for a passing subscriber has the title
  \<open>image\<close> followed by \<open>" vulnerability scan report"\<close>; the URL is the registry, \<open>"/"\<close>
  and the image with every \<open>"/"\<close> replaced by \<open>"%2F"\<close> (no other byte is changed); the
  raw input is under \<open>src\<close>; and there is an \<open>owners\<close> field exactly when the
  owning-team identifiers joined with \<open>";"\<close> give a non-empty string, the field being
  that string.
\<close>

theorem content_fields:
  "map_of (plugin_content env scan info input (owners_of info) p) ''title''
     = Some (Image_name info @ '' vulnerability scan report'')
   \<and> map_of (plugin_content env scan info input (owners_of info) p) ''url''
     = Some (Registry info @ ''/'' @ ReplaceAll (Image_name info) (CHR ''/'') ''%2F'')
   \<and> map_of (plugin_content env scan info input (owners_of info) p) ''src'' = Some input
   \<and> map_of (plugin_content env scan info input (owners_of info) p) ''owners''
     = (if Join (ApplicationScopeOwners info) '';'' = [] then None
        else Some (Join (ApplicationScopeOwners info) '';''))"
  by (simp add: Join_owners plugin_content_def getContent_def buildMapContent_def Let_def
      update_conv')

theorem content_fields_witness:
  "map_of (plugin_content ex_env (ex_scan True) ex_info ''{}'' (owners_of ex_info)
             (ex_plugin ex_settings)) ''title''
     = Some ''library/alpine:3.9 vulnerability scan report''
   \<and> map_of (plugin_content ex_env (ex_scan True) ex_info ''{}'' (owners_of ex_info)
             (ex_plugin ex_settings)) ''url''
     = Some ''docker.io/library%2Falpine:3.9''
   \<and> map_of (plugin_content ex_env (ex_scan True) ex_info ''{}'' (owners_of ex_info)
             (ex_plugin ex_settings)) ''src'' = Some ''{}''
   \<and> map_of (plugin_content ex_env (ex_scan True) ex_info ''{}'' (owners_of ex_info)
             (ex_plugin ex_settings)) ''owners'' = Some ''sec;ops''"
  using content_fields [where env = ex_env and scan = "ex_scan True" and info = ex_info
      and input = "''{}''" and p = "ex_plugin ex_settings"]
  by (simp add: ex_info_def)

text \<open>
  Claim C8, as stated, at a scan whose image is \<open>app?v=1#x\<close> and that carries one
  owning-team identifier, the empty string: the content has no \<open>owners\<close> field, and the
  URL keeps \<open>?\<close> and \<open>#\<close> as they are.
\<close>

theorem content_fields_counterexample:
  "length (ApplicationScopeOwners (ex_info\<lparr>Image_name := ''app?v=1#x'', ApplicationScopeOwners := [[]]\<rparr>)) = 1
   \<and> map_of (plugin_content ex_env (ex_scan True)
               (ex_info\<lparr>Image_name := ''app?v=1#x'', ApplicationScopeOwners := [[]]\<rparr>) ''{}''
               (owners_of (ex_info\<lparr>Image_name := ''app?v=1#x'', ApplicationScopeOwners := [[]]\<rparr>))
               (ex_plugin ex_settings)) ''owners'' = None
   \<and> map_of (plugin_content ex_env (ex_scan True)
               (ex_info\<lparr>Image_name := ''app?v=1#x'', ApplicationScopeOwners := [[]]\<rparr>) ''{}''
               (owners_of (ex_info\<lparr>Image_name := ''app?v=1#x'', ApplicationScopeOwners := [[]]\<rparr>))
               (ex_plugin ex_settings)) ''url'' = Some ''docker.io/app?v=1#x''"
  by (simp add: plugin_content_def getContent_def buildMapContent_def Let_def owners_of_def
      ex_info_def)

section \<open>Previous scan of a repeat\<close>

text \<open>
  Claim C9. When \<open>init\<close> leaves \<open>isNew\<close> false, \<open>prevScan\<close> is what it was before the
  call, so for a scan service that starts with \<open>prevScan\<close> \<open>nil\<close> the renderer is given
  no previous scan, whatever the subscriber's options. \<open>init\<close> changes \<open>prevScan\<close> only
  when the input parsed, the scan database answered without error that the scan is new
  and returned a non-empty earlier payload; the new value is then the parse of that
  payload.
\<close>

theorem repeat_scan_no_previous:
  assumes "init env w scan data = (w', scan', err)"
  shows "(\<not> isNew scan' \<longrightarrow> prevScan scan' = prevScan scan)
    \<and> (\<not> isNew scan' \<and> prevScan scan = None \<longrightarrow>
         getContent env info (prevScan scan') provider server
           = buildMapContent (Image_name info @ '' vulnerability scan report'')
               (GenTicketDescription env provider info None
                  (server @ Registry info @ ''/'' @ ReplaceAll (Image_name info) (CHR ''/'') ''%2F''))
               (Registry info @ ''/'' @ ReplaceAll (Image_name info) (CHR ''/'') ''%2F''))
    \<and> (prevScan scan' \<noteq> prevScan scan \<longrightarrow>
         (\<exists>info1 w1 src. parseImageInfo env data = (info1, None)
            \<and> HandleCurrentInfo env w info1 = (w1, src, True, None)
            \<and> src \<noteq> []
            \<and> isNew scan'
            \<and> prevScan scan' = fst (parseImageInfo env src)))"
proof -
  obtain info1 e1 where p: "parseImageInfo env data = (info1, e1)"
    by (cases "parseImageInfo env data")
  obtain w1 src new e2 where h: "HandleCurrentInfo env w info1 = (w1, src, new, e2)"
    by (cases "HandleCurrentInfo env w info1") auto
  obtain prev e3 where q: "parseImageInfo env src = (prev, e3)"
    by (cases "parseImageInfo env src")
  have a: "\<not> isNew scan' \<longrightarrow> prevScan scan' = prevScan scan"
    using assms by (auto simp: init_def p h q Let_def split: if_splits)
  have c: "prevScan scan' \<noteq> prevScan scan \<longrightarrow>
         (\<exists>info1 w1 src. parseImageInfo env data = (info1, None)
            \<and> HandleCurrentInfo env w info1 = (w1, src, True, None)
            \<and> src \<noteq> []
            \<and> isNew scan'
            \<and> prevScan scan' = fst (parseImageInfo env src))"
    using assms by (auto simp: init_def p h q Let_def split: if_splits)
  have b: "\<not> isNew scan' \<and> prevScan scan = None \<longrightarrow>
         getContent env info (prevScan scan') provider server
           = buildMapContent (Image_name info @ '' vulnerability scan report'')
               (GenTicketDescription env provider info None
                  (server @ Registry info @ ''/'' @ ReplaceAll (Image_name info) (CHR ''/'') ''%2F''))
               (Registry info @ ''/'' @ ReplaceAll (Image_name info) (CHR ''/'') ''%2F'')"
    using a by (simp add: getContent_def Let_def)
  from a b c show ?thesis by blast
qed


theorem repeat_scan_no_previous_witness:
  "init ex_repeat_env [] \<lparr>scanInfo = None, prevScan = None, isNew = False\<rparr> ''img''
     = ([], \<lparr>scanInfo = Some (ex_info\<lparr>Image_name := ''img''\<rparr>), prevScan = None, isNew = False\<rparr>,
        None)
   \<and> getContent ex_repeat_env ex_info
         (prevScan \<lparr>scanInfo = Some (ex_info\<lparr>Image_name := ''img''\<rparr>), prevScan = None,
                    isNew = False\<rparr>) () ''https://aqua/''
       = [(''title'', ''library/alpine:3.9 vulnerability scan report''),
          (''description'', ''no previous scan''),
          (''url'', ''docker.io/library%2Falpine:3.9'')]"
proof -
  have i: "init ex_repeat_env [] \<lparr>scanInfo = None, prevScan = None, isNew = False\<rparr> ''img''
     = ([], \<lparr>scanInfo = Some (ex_info\<lparr>Image_name := ''img''\<rparr>), prevScan = None, isNew = False\<rparr>,
        None)"
    by (simp add: init_def ex_repeat_env_def ex_env_def)
  show ?thesis
    using i repeat_scan_no_previous [OF i, where info = ex_info and provider = "()"
        and server = "''https://aqua/''"]
    by (simp add: buildMapContent_def ex_repeat_env_def ex_env_def ex_info_def)
qed

text \<open>
  The same on a whole call: a repeat scan sent to a subscriber that opted in with
  \<open>PolicyShowAll\<close> is rendered without a previous scan.
\<close>

lemma repeat_scan_show_all_example:
  "ResultHandling ex_repeat_env [] \<lparr>scanInfo = None, prevScan = None, isNew = False\<rparr> ''img''
     [(''jira'', Some (ex_plugin (ex_settings\<lparr>PolicyShowAll := True\<rparr>)))]
   = Inr ([], \<lparr>scanInfo = Some (ex_info\<lparr>Image_name := ''img''\<rparr>), prevScan = None, isNew = False\<rparr>,
          [Log (Handling ''docker.io'' ''img''),
           Dispatch ''jira''
             [(''title'', ''img vulnerability scan report''),
              (''description'', ''no previous scan''),
              (''url'', ''docker.io/img''),
              (''src'', ''img''),
              (''owners'', ''sec;ops'')]],
          [(''jira'', Some (ex_plugin (ex_settings\<lparr>PolicyShowAll := True\<rparr>)))])"
proof -
  have i: "init ex_repeat_env [] \<lparr>scanInfo = None, prevScan = None, isNew = False\<rparr> ''img''
     = ([], \<lparr>scanInfo = Some (ex_info\<lparr>Image_name := ''img''\<rparr>), prevScan = None, isNew = False\<rparr>,
        None)"
    by (simp add: init_def ex_repeat_env_def ex_env_def)
  have g: "policy_gate ex_repeat_env
             \<lparr>scanInfo = Some (ex_info\<lparr>Image_name := ''img''\<rparr>), prevScan = None, isNew = False\<rparr>
             (ex_info\<lparr>Image_name := ''img''\<rparr>) ''img'' ''jira'' (ex_settings\<lparr>PolicyShowAll := True\<rparr>)
           = ([], True)"
    by (simp add: policy_gate_def ex_settings_def)
  have c: "plugin_content ex_repeat_env
             \<lparr>scanInfo = Some (ex_info\<lparr>Image_name := ''img''\<rparr>), prevScan = None, isNew = False\<rparr>
             (ex_info\<lparr>Image_name := ''img''\<rparr>) ''img'' ''sec;ops''
             (ex_plugin (ex_settings\<lparr>PolicyShowAll := True\<rparr>))
           = [(''title'', ''img vulnerability scan report''),
              (''description'', ''no previous scan''),
              (''url'', ''docker.io/img''),
              (''src'', ''img''),
              (''owners'', ''sec;ops'')]"
    by (simp add: plugin_content_def getContent_def buildMapContent_def Let_def ex_plugin_def
        ex_repeat_env_def ex_env_def ex_info_def)
  have o: "owners_of (ex_info\<lparr>Image_name := ''img''\<rparr>) = ''sec;ops''"
    by (simp add: owners_of_def ex_info_def)
  have n: "AggregateIssuesNumber (ex_settings\<lparr>PolicyShowAll := True\<rparr>) = 0"
    "AggregateTimeoutSeconds (ex_settings\<lparr>PolicyShowAll := True\<rparr>) = 0"
    by (simp_all add: ex_settings_def)
  have hw: "handle_with ex_repeat_env
             \<lparr>scanInfo = Some (ex_info\<lparr>Image_name := ''img''\<rparr>), prevScan = None, isNew = False\<rparr>
             (ex_info\<lparr>Image_name := ''img''\<rparr>) ''img'' ''sec;ops'' [] ''jira''
             (ex_plugin (ex_settings\<lparr>PolicyShowAll := True\<rparr>)) (ex_settings\<lparr>PolicyShowAll := True\<rparr>)
           = ([], [Dispatch ''jira''
                     [(''title'', ''img vulnerability scan report''),
                      (''description'', ''no previous scan''),
                      (''url'', ''docker.io/img''),
                      (''src'', ''img''),
                      (''owners'', ''sec;ops'')]], ex_settings\<lparr>PolicyShowAll := True\<rparr>)"
    by (simp add: handle_with_def g c count_step_def time_step_def final_send_def n)
  have hp: "handle_plugin ex_repeat_env
             \<lparr>scanInfo = Some (ex_info\<lparr>Image_name := ''img''\<rparr>), prevScan = None, isNew = False\<rparr>
             (ex_info\<lparr>Image_name := ''img''\<rparr>) ''img'' ''sec;ops'' [] ''jira''
             (Some (ex_plugin (ex_settings\<lparr>PolicyShowAll := True\<rparr>)))
           = ([], [Dispatch ''jira''
                     [(''title'', ''img vulnerability scan report''),
                      (''description'', ''no previous scan''),
                      (''url'', ''docker.io/img''),
                      (''src'', ''img''),
                      (''owners'', ''sec;ops'')]],
              Some (ex_plugin (ex_settings\<lparr>PolicyShowAll := True\<rparr>)))"
    using hw by (simp add: handle_plugin_def ex_plugin_def)
  show ?thesis
    by (simp add: ResultHandling_def i o hp) (simp add: ex_info_def)
qed

section \<open>Minimum severity\<close>

lemma vulns_loop_iff:
  "vulns_loop vulns i = (\<exists>j. i \<le> j \<and> j < length vulns \<and> 0 < vulns ! j)"
proof (induction vulns i rule: vulns_loop.induct)
  case (1 vulns i)
  show ?case
  proof (cases "i < length vulns")
    case False
    then show ?thesis by (subst vulns_loop.simps) auto
  next
    case True
    show ?thesis
    proof (cases "0 < vulns ! i")
      case pos: True
      then show ?thesis using True by (subst vulns_loop.simps) auto
    next
      case neg: False
      have "vulns_loop vulns i = vulns_loop vulns (Suc i)"
        using True neg by (subst vulns_loop.simps) simp
      also have "\<dots> = (\<exists>j. Suc i \<le> j \<and> j < length vulns \<and> 0 < vulns ! j)"
        using "1.IH" True neg by simp
      also have "\<dots> = (\<exists>j. i \<le> j \<and> j < length vulns \<and> 0 < vulns ! j)"
        using neg by (metis Suc_leD Suc_leI le_neq_implies_less)
      finally show ?thesis .
    qed
  qed
qed

lemma SeverityIndexes_rank: "SeverityIndexes_at (level_name L) = rank L"
  by (cases L) (simp_all add: SeverityIndexes_at_def SeverityIndexes_def)

lemma count_of_nth:
  "count_of info L = [Negligible info, Low info, Medium info, High info, Critical info] ! rank L"
  by (cases L) simp_all

lemma rank_less_5: "rank L < 5"
  by (cases L) simp_all

lemma rank_onto: "j < 5 \<Longrightarrow> \<exists>L. rank L = j"
proof -
  assume "j < 5"
  then have "j = 0 \<or> j = 1 \<or> j = 2 \<or> j = 3 \<or> j = 4" by arith
  then show ?thesis
    by (metis rank.simps)
qed

lemma checkVulnerabilitiesLevel_iff:
  assumes "ToLower minLevel = level_name L"
  shows "checkVulnerabilitiesLevel info minLevel = (\<exists>L'. rank L \<le> rank L' \<and> 0 < count_of info L')"
proof -
  let ?v = "[Negligible info, Low info, Medium info, High info, Critical info]"
  have len: "length ?v = 5"
    by simp
  have "checkVulnerabilitiesLevel info minLevel = vulns_loop ?v (rank L)"
    by (simp add: checkVulnerabilitiesLevel_def assms SeverityIndexes_rank)
  also have "\<dots> = (\<exists>j. rank L \<le> j \<and> j < 5 \<and> 0 < ?v ! j)"
    by (simp only: vulns_loop_iff len)
  also have "\<dots> = (\<exists>L'. rank L \<le> rank L' \<and> 0 < count_of info L')"
  proof
    assume "\<exists>j. rank L \<le> j \<and> j < 5 \<and> 0 < ?v ! j"
    then obtain j where j: "rank L \<le> j" "j < 5" "0 < ?v ! j" by blast
    obtain L' where "rank L' = j" using rank_onto [OF j(2)] by blast
    then show "\<exists>L'. rank L \<le> rank L' \<and> 0 < count_of info L'"
      using j by (auto simp: count_of_nth)
  next
    assume "\<exists>L'. rank L \<le> rank L' \<and> 0 < count_of info L'"
    then obtain L' where "rank L \<le> rank L'" "0 < count_of info L'" by blast
    then show "\<exists>j. rank L \<le> j \<and> j < 5 \<and> 0 < ?v ! j"
      using rank_less_5 [of L'] by (auto simp: count_of_nth)
  qed
  finally show ?thesis .
qed


lemma gate_low_level:
  assumes "isNew scan \<or> PolicyShowAll cs" and "PolicyMinVulnerability cs \<noteq> []"
  shows "(policy_gate env scan info input name cs
            = ([Only_low_level (GetUniqueId env info) name (PolicyMinVulnerability cs)], False))
         = (\<not> checkVulnerabilitiesLevel info (PolicyMinVulnerability cs))"
proof (cases "checkVulnerabilitiesLevel info (PolicyMinVulnerability cs)")
  case False
  then show ?thesis using assms by (simp add: policy_gate_def)
next
  case True
  have "policy_gate env scan info input name cs \<noteq> ([Only_low_level a b c], False)" for a b c
    using True assms by (simp add: policy_gate_def split: prod.splits option.splits)
  then show ?thesis using True by simp
qed

lemma level_name_not_Nil: "level_name L \<noteq> []"
  by (cases L) simp_all

text \<open>
  Claim C5. Let the configured minimum level, lower-cased, be the name of the level
  \<open>L\<close>, let the freshness check pass and let the finding counts be non-negative. Then
  the table gives the rank of \<open>L\<close>, and the subscriber is skipped by the minimum-severity
  check exactly when every finding count at a level of rank at least that of \<open>L\<close> is
  zero. The ranks are \<open>0\<close> to \<open>4\<close> in the order Negligible, Low, Medium, High, Critical.
\<close>

theorem min_severity_gate:
  assumes fresh: "isNew scan \<or> PolicyShowAll cs"
    and lvl: "ToLower (PolicyMinVulnerability cs) = level_name L"
    and nonneg: "\<forall>L'. 0 \<le> count_of info L'"
  shows "SeverityIndexes_at (ToLower (PolicyMinVulnerability cs)) = rank L
    \<and> ((policy_gate env scan info input name cs
          = ([Only_low_level (GetUniqueId env info) name (PolicyMinVulnerability cs)], False))
        = (\<forall>L'. rank L \<le> rank L' \<longrightarrow> count_of info L' = 0))"
proof -
  have ne: "PolicyMinVulnerability cs \<noteq> []"
    using lvl level_name_not_Nil [of L] by (auto simp: ToLower_def)
  have "(\<not> (\<exists>L'. rank L \<le> rank L' \<and> 0 < count_of info L'))
          = (\<forall>L'. rank L \<le> rank L' \<longrightarrow> count_of info L' = 0)"
    using nonneg by (metis less_le not_less)
  then show ?thesis
    by (simp add: gate_low_level [OF fresh ne] checkVulnerabilitiesLevel_iff [OF lvl] lvl
        SeverityIndexes_rank)
qed

theorem min_severity_gate_witness:
  "(isNew (ex_scan True) \<or> PolicyShowAll (ex_settings\<lparr>PolicyMinVulnerability := ''HiGh''\<rparr>))
   \<and> ToLower (PolicyMinVulnerability (ex_settings\<lparr>PolicyMinVulnerability := ''HiGh''\<rparr>))
       = level_name Sev_High
   \<and> policy_gate ex_env (ex_scan True) ex_info ''{}'' ''jira''
        (ex_settings\<lparr>PolicyMinVulnerability := ''HiGh''\<rparr>)
      = ([Only_low_level ''docker.io/library/alpine:3.9'' ''jira'' ''HiGh''], False)"
proof -
  let ?cs = "ex_settings\<lparr>PolicyMinVulnerability := ''HiGh''\<rparr>"
  have fresh: "isNew (ex_scan True) \<or> PolicyShowAll ?cs"
    by (simp add: ex_scan_def)
  have lw: "ToLower ''HiGh'' = ''high''"
    by code_simp
  have lvl: "ToLower (PolicyMinVulnerability ?cs) = level_name Sev_High"
    by (simp add: lw)
  have nonneg: "\<forall>L'. 0 \<le> count_of ex_info L'"
  proof
    fix L' show "0 \<le> count_of ex_info L'" by (cases L') (simp_all add: ex_info_def)
  qed
  have zero: "\<forall>L'. rank Sev_High \<le> rank L' \<longrightarrow> count_of ex_info L' = 0"
  proof
    fix L' show "rank Sev_High \<le> rank L' \<longrightarrow> count_of ex_info L' = 0"
      by (cases L') (simp_all add: ex_info_def)
  qed
  have u: "GetUniqueId ex_env ex_info = ''docker.io/library/alpine:3.9''"
    by (simp add: ex_env_def ex_info_def)
  have m: "PolicyMinVulnerability ?cs = ''HiGh''"
    by simp
  show ?thesis
    using fresh lvl zero
      min_severity_gate [OF fresh lvl nonneg, where env = ex_env and input = "''{}''"
        and name = "''jira''"]
    by (simp only: u m simp_thms)
qed

section \<open>Starting the scheduler once\<close>

text \<open>Two calls one after the other start the scheduler once.\<close>

lemma scheduler_guard_sequential:
  "started (guard_run [0, 0, 1, 1]
              \<lparr>flag = False, started = 0, pcs = [At_line_119, At_line_119]\<rparr>) = 1"
  by (simp add: guard_step_def)

text \<open>
  Claim C3. The claim asks that the scheduler of a subscriber is started at most once
  even when several calls enable it at the same time. In the source the test of line
  119 and the write of line 132 are separate steps: when two calls both pass line 119
  before either reaches line 132, the goroutine is started twice.
\<close>

theorem scheduler_guard_race:
  "started (guard_run [0, 1, 0, 1]
              \<lparr>flag = False, started = 0, pcs = [At_line_119, At_line_119]\<rparr>) = 2"
  by (simp add: guard_step_def)

end
